theory Spec2Isabelle
  imports Complex_Main "HOL-Library.Word"
begin

section \<open>float64 arithmetic\<close>

text \<open>
  A finite \<^verbatim>\<open>float64\<close> is the real it denotes, so \<^verbatim>\<open>>=\<close> on floats is \<open>\<le>\<close> on
  reals. An arithmetic operation of Go returns the exact result rounded to the nearest
  \<^verbatim>\<open>float64\<close>, ties to the even significand (IEEE 754 binary64): 53 significant bits,
  with the exponent of the leading bit kept between \<open>-1022\<close> (below it the spacing is
  that of the subnormals) and \<open>1023\<close>. Where Go would overflow to an infinity the model
  keeps a finite value of the same sign; NaN and the infinities are not values of the
  model.
\<close>

text \<open>The exponent of the leading bit of \<open>x \<ge> 1\<close>, at most the fuel.\<close>

fun normUp :: "nat \<Rightarrow> real \<Rightarrow> int" where
  "normUp 0 x = 0"
| "normUp (Suc fuel) x = (if 2 \<le> x then normUp fuel (x / 2) + 1 else 0)"

text \<open>The exponent of the leading bit of \<open>0 < x < 1\<close>, at least minus the fuel.\<close>

fun normDown :: "nat \<Rightarrow> real \<Rightarrow> int" where
  "normDown 0 x = 0"
| "normDown (Suc fuel) x = (if x < 1 then normDown fuel (2 * x) - 1 else 0)"

definition float64_exponent :: "real \<Rightarrow> int" where
  "float64_exponent x = (if 1 \<le> x then normUp 1023 x else normDown 1022 x)"

definition roundTiesToEven :: "real \<Rightarrow> int" where
  "roundTiesToEven t =
     (let f = \<lfloor>t\<rfloor>; d = t - of_int f
      in if d < 1 / 2 then f else if 1 / 2 < d then f + 1 else if even f then f else f + 1)"

text \<open>The nearest \<^verbatim>\<open>float64\<close>: a multiple of the spacing \<open>q\<close> at the exponent of \<open>r\<close>.\<close>

definition float64_round :: "real \<Rightarrow> real" where
  "float64_round r =
     (if r = 0 then 0
      else let q = 2 powi (float64_exponent \<bar>r\<bar> - 52)
           in q * of_int (roundTiesToEven (r / q)))"

text \<open>\<^verbatim>\<open>a - b\<close> and \<^verbatim>\<open>a * b\<close> on \<^verbatim>\<open>float64\<close>, and the conversion \<^verbatim>\<open>float64(u)\<close> of a \<^verbatim>\<open>uint64\<close>.\<close>

definition float64_sub :: "real \<Rightarrow> real \<Rightarrow> real" where
  "float64_sub a b = float64_round (a - b)"

definition float64_mul :: "real \<Rightarrow> real \<Rightarrow> real" where
  "float64_mul a b = float64_round (a * b)"

definition float64_of_uint64 :: "64 word \<Rightarrow> real" where
  "float64_of_uint64 u = float64_round (real_of_int (uint u))"

section \<open>The CPU collector: data\<close>

text \<open>
  \<^verbatim>\<open>procfs.CPUStat\<close> holds ten \<^verbatim>\<open>float64\<close> counters of seconds. The debug-log calls
  and the mutex of the source touch no counter and are left out.
\<close>

record CPUStat =
  User :: real
  Nice :: real
  System :: real
  Idle :: real
  Iowait :: real
  IRQ :: real
  SoftIRQ :: real
  Steal :: real
  Guest :: real
  GuestNice :: real

text \<open>The Go zero value \<^verbatim>\<open>procfs.CPUStat{}\<close>.\<close>

definition CPUStat_zero :: CPUStat where
  "CPUStat_zero =
     \<lparr>User = 0, Nice = 0, System = 0, Idle = 0, Iowait = 0,
      IRQ = 0, SoftIRQ = 0, Steal = 0, Guest = 0, GuestNice = 0\<rparr>"

text \<open>\<^verbatim>\<open>const jumpBackSeconds = 3.0\<close> (cpu_linux.go, line 51).\<close>

definition jumpBackSeconds :: real where
  "jumpBackSeconds = 3"

text \<open>
  Of \<^verbatim>\<open>cpuCollector\<close> only the cache \<^verbatim>\<open>cpuStats\<close> is state; the descriptors, the
  file-system handle and the logger never change after construction.
\<close>

record cpuCollector =
  cpuStats :: "CPUStat list"

text \<open>
  The cache of a new collector is empty: the constructor sets no \<^verbatim>\<open>cpuStats\<close>, which
  leaves the nil slice.
\<close>

definition newCPUCollectorState :: cpuCollector where
  "newCPUCollectorState = \<lparr>cpuStats = []\<rparr>"

section \<open>The CPU collector: updateCPUStats\<close>

text \<open>
  The body of the loop \<^verbatim>\<open>for i, n := range newStats\<close> (cpu_linux.go, lines 141 to 175),
  on the entry \<open>s0 = c.cpuStats[i]\<close>: the reset on an idle jump-back, then one block per
  counter that takes the new value when it is not below the cached one.
\<close>

definition loopBody :: "CPUStat \<Rightarrow> CPUStat \<Rightarrow> CPUStat" where
  "loopBody s0 n =
     (let s1 = (if float64_sub (Idle s0) (Idle n) \<ge> jumpBackSeconds then CPUStat_zero else s0);
          s2 = (if Idle n \<ge> Idle s1 then s1\<lparr>Idle := Idle n\<rparr> else s1);
          s3 = (if User n \<ge> User s2 then s2\<lparr>User := User n\<rparr> else s2);
          s4 = (if Nice n \<ge> Nice s3 then s3\<lparr>Nice := Nice n\<rparr> else s3);
          s5 = (if System n \<ge> System s4 then s4\<lparr>System := System n\<rparr> else s4);
          s6 = (if Iowait n \<ge> Iowait s5 then s5\<lparr>Iowait := Iowait n\<rparr> else s5)
      in s6)"

text \<open>
  Modelled from the spec: the rest of the loop body of \<^verbatim>\<open>updateCPUStats\<close>, which
  src/cpu_linux.go cuts off after the Iowait block. The spec (4.3, step 4) gives each
  tracked field, independently, the rule of the blocks above: a raw value \<open>\<ge>\<close> the
  cached one is adopted, a smaller one leaves the cached value. That covers irq, softirq
  and steal. The guest and guestNice fields, which \<^verbatim>\<open>Update\<close> emits from the cache
  (step 6), are counters of the same cached snapshot (section 3) and are given the same
  rule.
\<close>

definition loopBodyRest :: "CPUStat \<Rightarrow> CPUStat \<Rightarrow> CPUStat" where
  "loopBodyRest s6 n =
     (let s7 = (if IRQ n \<ge> IRQ s6 then s6\<lparr>IRQ := IRQ n\<rparr> else s6);
          s8 = (if SoftIRQ n \<ge> SoftIRQ s7 then s7\<lparr>SoftIRQ := SoftIRQ n\<rparr> else s7);
          s9 = (if Steal n \<ge> Steal s8 then s8\<lparr>Steal := Steal n\<rparr> else s8);
          s10 = (if Guest n \<ge> Guest s9 then s9\<lparr>Guest := Guest n\<rparr> else s9);
          s11 = (if GuestNice n \<ge> GuestNice s10 then s10\<lparr>GuestNice := GuestNice n\<rparr> else s10)
      in s11)"

definition updateEntry :: "CPUStat \<Rightarrow> CPUStat \<Rightarrow> CPUStat" where
  "updateEntry s n = loopBodyRest (loopBody s n) n"

text \<open>
  Lines 136 to 138: the cache is reallocated, all zero, when the number of CPUs differs.
\<close>

definition resetCache :: "cpuCollector \<Rightarrow> CPUStat list \<Rightarrow> cpuCollector" where
  "resetCache c newStats =
     (if length (cpuStats c) \<noteq> length newStats
      then c\<lparr>cpuStats := replicate (length newStats) CPUStat_zero\<rparr>
      else c)"

text \<open>
  One iteration writes \<^verbatim>\<open>c.cpuStats[i]\<close> in place. After \<open>resetCache\<close> the two slices
  have one length, so every index of the loop is in range.
\<close>

definition loopStep :: "cpuCollector \<Rightarrow> nat \<times> CPUStat \<Rightarrow> cpuCollector" where
  "loopStep c p =
     (case p of (i, n) \<Rightarrow> c\<lparr>cpuStats := (cpuStats c)[i := updateEntry (cpuStats c ! i) n]\<rparr>)"

definition updateCPUStats :: "cpuCollector \<Rightarrow> CPUStat list \<Rightarrow> cpuCollector" where
  "updateCPUStats c newStats =
     foldl loopStep (resetCache c newStats) (enumerate 0 newStats)"

section \<open>Metrics, errors and label values\<close>

text \<open>
  A sample is what \<^verbatim>\<open>MustNewConstMetric(desc, valueType, value, labelValues...)\<close>
  builds; sending it on the channel \<^verbatim>\<open>ch\<close> appends it to the list of emitted samples.
  The descriptor is named by the field of the collector that holds it.
\<close>

datatype ValueType = CounterValue | GaugeValue

datatype 'd Metric = MustNewConstMetric (desc: 'd) (valueType: ValueType) (val: real) (labelValues: "string list")

text \<open>
  An error is either one returned by the external procfs/sysfs library or one built by
  \<^verbatim>\<open>fmt.Errorf(format, err)\<close> around another.
\<close>

datatype error = LibraryError string | Errorf string error

text \<open>\<^verbatim>\<open>strconv.Itoa\<close> on the non-negative index of a \<^verbatim>\<open>range\<close> loop.\<close>

definition digit :: "nat \<Rightarrow> char" where
  "digit d = ''0123456789'' ! d"

fun Itoa :: "nat \<Rightarrow> string" where
  "Itoa n = (if n < 10 then [digit n] else Itoa (n div 10) @ [digit (n mod 10)])"

section \<open>The CPU collector: emitting the cache\<close>

datatype cpuCollectorDesc =
  cpu | cpuInfo | cpuFlagsInfo | cpuBugsInfo | cpuGuest | cpuCoreThrottle | cpuPackageThrottle

text \<open>
  The body of \<^verbatim>\<open>for cpuID, cpuStat := range c.cpuStats\<close> (cpu_linux.go, lines 107 to
  123); \<open>enableCPUGuest\<close> is the value of the flag \<^verbatim>\<open>collector.cpu.guest\<close>.
\<close>

definition emitCPUStat :: "bool \<Rightarrow> nat \<times> CPUStat \<Rightarrow> cpuCollectorDesc Metric list" where
  "emitCPUStat enableCPUGuest p =
     (case p of (cpuID, cpuStat) \<Rightarrow>
        let cpuNum = Itoa cpuID in
        [MustNewConstMetric cpu CounterValue (User cpuStat) [cpuNum, ''user''],
         MustNewConstMetric cpu CounterValue (Nice cpuStat) [cpuNum, ''nice''],
         MustNewConstMetric cpu CounterValue (System cpuStat) [cpuNum, ''system''],
         MustNewConstMetric cpu CounterValue (Idle cpuStat) [cpuNum, ''idle''],
         MustNewConstMetric cpu CounterValue (Iowait cpuStat) [cpuNum, ''iowait''],
         MustNewConstMetric cpu CounterValue (IRQ cpuStat) [cpuNum, ''irq''],
         MustNewConstMetric cpu CounterValue (SoftIRQ cpuStat) [cpuNum, ''softirq''],
         MustNewConstMetric cpu CounterValue (Steal cpuStat) [cpuNum, ''steal'']] @
        (if enableCPUGuest
         then [MustNewConstMetric cpuGuest CounterValue (Guest cpuStat) [cpuNum, ''user''],
               MustNewConstMetric cpuGuest CounterValue (GuestNice cpuStat) [cpuNum, ''nice'']]
         else []))"

text \<open>
  The part of the CPU collector's \<^verbatim>\<open>Update\<close> that src/cpu_linux.go shows (lines 102 to
  126): it starts at \<^verbatim>\<open>c.updateCPUStats(stats.CPU)\<close>, so the raw reading \<open>statsCPU\<close> is
  an argument. It returns the collector, the samples sent on the channel, and \<^verbatim>\<open>nil\<close>.
\<close>

definition cpuCollector_Update ::
  "bool \<Rightarrow> cpuCollector \<Rightarrow> CPUStat list \<Rightarrow> cpuCollector \<times> cpuCollectorDesc Metric list \<times> error option" where
  "cpuCollector_Update enableCPUGuest c statsCPU =
     (let c' = updateCPUStats c statsCPU
      in (c', concat (map (emitCPUStat enableCPUGuest) (enumerate 0 (cpuStats c'))), None))"

text \<open>
  \<^verbatim>\<open>NewCPUCollector\<close> (lines 66 to 70): \<open>newFS\<close> is the result of
  \<^verbatim>\<open>procfs.NewFS(*procPath)\<close>. The source is cut off inside the construction of the
  collector, so what the factory does with an opened file system is the argument \<open>rest\<close>.
\<close>

definition NewCPUCollector :: "error + 'fs \<Rightarrow> ('fs \<Rightarrow> error + 'c) \<Rightarrow> error + 'c" where
  "NewCPUCollector newFS rest =
     (case newFS of
        Inl err \<Rightarrow> Inl (Errorf ''failed to open procfs: %w'' err)
      | Inr fs \<Rightarrow> rest fs)"

section \<open>The buddyinfo collector\<close>

record BuddyInfo =
  Node :: string
  Zone :: string
  Sizes :: "real list"

datatype buddyinfoDesc = buddyinfo_desc

record 'fs buddyinfoCollector =
  buddyinfo_fs :: 'fs
  buddyinfo_descriptor :: buddyinfoDesc

definition NewBuddyinfoCollector :: "error + 'fs \<Rightarrow> error + 'fs buddyinfoCollector" where
  "NewBuddyinfoCollector newFS =
     (case newFS of
        Inl err \<Rightarrow> Inl (Errorf ''failed to open procfs: %w'' err)
      | Inr fs \<Rightarrow> Inr \<lparr>buddyinfo_fs = fs, buddyinfo_descriptor = buddyinfo_desc\<rparr>)"

text \<open>
  \<^verbatim>\<open>(*buddyinfoCollector).Update\<close>; \<open>readBuddyInfo\<close> is the result of
  \<^verbatim>\<open>c.fs.BuddyInfo()\<close>. The result is the samples sent and the error returned.
\<close>

definition buddyinfoCollector_Update ::
  "error + BuddyInfo list \<Rightarrow> buddyinfoDesc Metric list \<times> error option" where
  "buddyinfoCollector_Update readBuddyInfo =
     (case readBuddyInfo of
        Inl err \<Rightarrow> ([], Some (Errorf ''couldn't get buddyinfo: %w'' err))
      | Inr buddyInfo \<Rightarrow>
          (concat (map (\<lambda>entry.
             map (\<lambda>(size, value).
                    MustNewConstMetric buddyinfo_desc GaugeValue value
                      [Node entry, Zone entry, Itoa size])
                 (enumerate 0 (Sizes entry))) buddyInfo),
           None))"

section \<open>The bcache collector\<close>

record 'fs bcacheCollector =
  bcache_fs :: 'fs

definition NewBcacheCollector :: "error + 'fs \<Rightarrow> error + 'fs bcacheCollector" where
  "NewBcacheCollector newFS =
     (case newFS of
        Inl err \<Rightarrow> Inl (Errorf ''failed to open sysfs: %w'' err)
      | Inr fs \<Rightarrow> Inr \<lparr>bcache_fs = fs\<rparr>)"

text \<open>
  \<^verbatim>\<open>(*bcacheCollector).Update\<close>: \<open>priorityStats\<close> is the flag, \<open>readStats\<close> and
  \<open>readStatsWithoutPriority\<close> are the results of \<^verbatim>\<open>c.fs.Stats()\<close> and
  \<^verbatim>\<open>c.fs.StatsWithoutPriority()\<close>, of which only the selected one is read. The body of
  \<^verbatim>\<open>updateBcacheStats\<close> is cut in the source, so the samples it sends for one
  \<^verbatim>\<open>*bcache.Stats\<close> are the argument \<open>updateBcacheStats\<close>.
\<close>

definition bcacheCollector_Update ::
  "bool \<Rightarrow> error + 's list \<Rightarrow> error + 's list \<Rightarrow> ('s \<Rightarrow> 'm list) \<Rightarrow> 'm list \<times> error option" where
  "bcacheCollector_Update priorityStats readStats readStatsWithoutPriority updateBcacheStats =
     (case (if priorityStats then readStats else readStatsWithoutPriority) of
        Inl err \<Rightarrow> ([], Some (Errorf ''failed to retrieve bcache stats: %w'' err))
      | Inr stats \<Rightarrow> (concat (map updateBcacheStats stats), None))"

section \<open>The cpufreq collector\<close>

text \<open>
  The fields of \<^verbatim>\<open>sysfs.SystemCPUCpufreqStats\<close> that the shown code reads: the name and
  the optional frequencies, \<^verbatim>\<open>*uint64\<close> in kHz, \<open>None\<close> for the nil pointer.
\<close>

record SystemCPUCpufreqStats =
  Name :: string
  CpuinfoCurrentFrequency :: "64 word option"
  CpuinfoMinimumFrequency :: "64 word option"
  CpuinfoMaximumFrequency :: "64 word option"

datatype cpuFreqCollectorDesc =
  cpuFreq | cpuFreqMin | cpuFreqMax | scalingFreq | scalingFreqMin | scalingFreqMax

text \<open>
  The two blocks of the loop body that the source shows in full (cpufreq_linux.go, lines
  94 to 109), each sending \<^verbatim>\<open>float64(*p)*1000.0\<close> when the pointer is not nil.
\<close>

definition emitCpuinfoFrequencies :: "SystemCPUCpufreqStats \<Rightarrow> cpuFreqCollectorDesc Metric list" where
  "emitCpuinfoFrequencies stats =
     (case CpuinfoCurrentFrequency stats of
        None \<Rightarrow> []
      | Some khz \<Rightarrow> [MustNewConstMetric cpuFreq GaugeValue
                     (float64_mul (float64_of_uint64 khz) 1000.0) [Name stats]]) @
     (case CpuinfoMinimumFrequency stats of
        None \<Rightarrow> []
      | Some khz \<Rightarrow> [MustNewConstMetric cpuFreqMin GaugeValue
                     (float64_mul (float64_of_uint64 khz) 1000.0) [Name stats]])"

text \<open>
  \<^verbatim>\<open>(*cpuFreqCollector).Update\<close>; \<open>readCpufreq\<close> is the result of
  \<^verbatim>\<open>c.fs.SystemCpufreq()\<close>. The source is cut inside the third block of the loop body
  (line 113), after its nil check on \<^verbatim>\<open>CpuinfoMaximumFrequency\<close> and the descriptor
  \<^verbatim>\<open>c.cpuFreqMax\<close> of the sample it sends: \<open>maxArgs\<close> gives the remaining arguments of
  that sample, \<open>rest\<close> the samples that everything after it sends for one record, and
  \<open>ret\<close> the value returned after the loop.
\<close>

definition cpuFreqCollector_Update ::
  "(SystemCPUCpufreqStats \<Rightarrow> ValueType \<times> real \<times> string list) \<Rightarrow>
   (SystemCPUCpufreqStats \<Rightarrow> cpuFreqCollectorDesc Metric list) \<Rightarrow> error option \<Rightarrow>
   error + SystemCPUCpufreqStats list \<Rightarrow> cpuFreqCollectorDesc Metric list \<times> error option" where
  "cpuFreqCollector_Update maxArgs rest ret readCpufreq =
     (case readCpufreq of
        Inl err \<Rightarrow> ([], Some err)
      | Inr cpuFreqs \<Rightarrow>
          (concat (map (\<lambda>stats.
             emitCpuinfoFrequencies stats @
             (case CpuinfoMaximumFrequency stats of
                None \<Rightarrow> []
              | Some khz \<Rightarrow>
                  (case maxArgs stats of
                     (vt, v, ls) \<Rightarrow> [MustNewConstMetric cpuFreqMax vt v ls])) @
             rest stats) cpuFreqs),
           ret))"

section \<open>Vocabulary of the properties\<close>

text \<open>The ratchet of one counter: the value a block of the loop body leaves.\<close>

definition ratchet :: "real \<Rightarrow> real \<Rightarrow> real" where
  "ratchet c r = (if r \<ge> c then r else c)"

text \<open>The entry the counter blocks start from: zero after an idle jump-back.\<close>

definition baseline :: "CPUStat \<Rightarrow> CPUStat \<Rightarrow> CPUStat" where
  "baseline s n =
     (if float64_sub (Idle s) (Idle n) \<ge> jumpBackSeconds then CPUStat_zero else s)"

text \<open>No counter of \<open>a\<close> is above the same counter of \<open>b\<close>.\<close>

definition CPUStat_le :: "CPUStat \<Rightarrow> CPUStat \<Rightarrow> bool" where
  "CPUStat_le a b \<longleftrightarrow>
     User a \<le> User b \<and> Nice a \<le> Nice b \<and> System a \<le> System b \<and> Idle a \<le> Idle b \<and>
     Iowait a \<le> Iowait b \<and> IRQ a \<le> IRQ b \<and> SoftIRQ a \<le> SoftIRQ b \<and> Steal a \<le> Steal b \<and>
     Guest a \<le> Guest b \<and> GuestNice a \<le> GuestNice b"

text \<open>
  A sequence of raw readings with a constant number of CPUs in which no counter of any
  CPU decreases from one reading to the next.
\<close>

fun nonDecreasing :: "CPUStat list list \<Rightarrow> bool" where
  "nonDecreasing [] = True"
| "nonDecreasing [a] = True"
| "nonDecreasing (a # b # rest) =
     (length a = length b \<and> list_all2 CPUStat_le a b \<and> nonDecreasing (b # rest))"

text \<open>
  The counters other than idle: the seven other tracked ones, then guest and guestNice.
\<close>

definition nonIdleFields :: "(CPUStat \<Rightarrow> real) list" where
  "nonIdleFields = [User, Nice, System, Iowait, IRQ, SoftIRQ, Steal, Guest, GuestNice]"

declare Itoa.simps [simp del]

section \<open>Properties of float64 rounding\<close>

lemma roundTiesToEven_error: "\<bar>of_int (roundTiesToEven t) - t\<bar> \<le> 1 / 2"
  unfolding roundTiesToEven_def Let_def by (auto; linarith)

lemma roundTiesToEven_nonpos: "t \<le> 0 \<Longrightarrow> roundTiesToEven t \<le> 0"
  unfolding roundTiesToEven_def Let_def by (auto; linarith)

lemma normUp_le: "1 \<le> x \<Longrightarrow> 2 powi normUp fuel x \<le> x"
proof (induction fuel arbitrary: x)
  case 0
  then show ?case by simp
next
  case (Suc fuel)
  show ?case
  proof (cases "2 \<le> x")
    case True
    then have "2 powi normUp fuel (x / 2) \<le> x / 2" by (intro Suc.IH) simp
    then show ?thesis using True by (simp add: power_int_add)
  next
    case False
    then show ?thesis using Suc.prems by simp
  qed
qed

lemma float64_round_nonpos: "r \<le> 0 \<Longrightarrow> float64_round r \<le> 0"
proof -
  assume r: "r \<le> 0"
  let ?q = "2 powi (float64_exponent \<bar>r\<bar> - 52) :: real"
  have q: "0 < ?q" by simp
  then have "r / ?q \<le> 0" using r by (simp add: divide_nonpos_pos)
  then have "roundTiesToEven (r / ?q) \<le> 0" by (rule roundTiesToEven_nonpos)
  then have "?q * of_int (roundTiesToEven (r / ?q)) \<le> 0"
    using q by (simp add: mult_nonneg_nonpos)
  then show ?thesis by (simp add: float64_round_def Let_def)
qed

text \<open>From 1 upward the rounding error is at most half a unit in the last place.\<close>

lemma float64_round_error:
  assumes "1 \<le> r"
  shows "\<bar>float64_round r - r\<bar> \<le> r / 2 ^ 53"
proof -
  let ?e = "float64_exponent \<bar>r\<bar>"
  let ?q = "2 powi (?e - 52) :: real"
  have q: "0 < ?q" by simp
  have "2 powi ?e \<le> r"
    using assms normUp_le [of r 1023] by (simp add: float64_exponent_def)
  moreover have "?q = 2 powi ?e / 2 ^ 52"
    by (simp add: power_int_diff)
  ultimately have qle: "?q \<le> r / 2 ^ 52" by (simp add: divide_right_mono)
  have "float64_round r - r = ?q * (of_int (roundTiesToEven (r / ?q)) - r / ?q)"
    using assms q by (simp add: float64_round_def Let_def algebra_simps)
  then have "\<bar>float64_round r - r\<bar> = ?q * \<bar>of_int (roundTiesToEven (r / ?q)) - r / ?q\<bar>"
    using q by (simp add: abs_mult)
  also have "\<dots> \<le> ?q * (1 / 2)"
    using q roundTiesToEven_error [of "r / ?q"] by (intro mult_left_mono) simp_all
  also have "\<dots> \<le> r / 2 ^ 52 * (1 / 2)" using qle by simp
  finally show ?thesis by simp
qed

text \<open>The jump-back test of line 142 on three ranges of the exact difference.\<close>

lemma no_jump_back_forward: "a \<le> b \<Longrightarrow> \<not> float64_sub a b \<ge> jumpBackSeconds"
  using float64_round_nonpos [of "a - b"] by (simp add: float64_sub_def jumpBackSeconds_def)

lemma no_jump_back_small:
  assumes "1 \<le> a - b" and "a - b \<le> 2"
  shows "\<not> float64_sub a b \<ge> jumpBackSeconds"
proof -
  have "\<bar>float64_round (a - b) - (a - b)\<bar> \<le> (a - b) / 2 ^ 53"
    using assms(1) by (rule float64_round_error)
  then have "float64_round (a - b) \<le> (a - b) + (a - b) / 2 ^ 53" by linarith
  also have "\<dots> \<le> 2 + 2 / 2 ^ 53" using assms(2) by (intro add_mono divide_right_mono) simp_all
  also have "\<dots> < 3" by simp
  finally show ?thesis by (simp add: float64_sub_def jumpBackSeconds_def)
qed

lemma jump_back_large:
  assumes "7 / 2 \<le> a - b"
  shows "float64_sub a b \<ge> jumpBackSeconds"
proof -
  define d where "d = a - b"
  have d: "7 / 2 \<le> d" using assms by (simp add: d_def)
  define t where "t = d / 2 ^ 53"
  have "\<bar>float64_round d - d\<bar> \<le> t"
    unfolding t_def using d by (intro float64_round_error) simp
  then have lower: "d - t \<le> float64_round d" by linarith
  have "t \<le> d / 7" unfolding t_def using d by (intro divide_left_mono) simp_all
  then have "7 * t \<le> d" by simp
  with lower d have "3 \<le> float64_round d" by linarith
  then show ?thesis by (simp add: float64_sub_def jumpBackSeconds_def d_def)
qed

section \<open>Properties of the loop body\<close>

lemma loopBody_fields:
  "User (loopBody s n) = ratchet (User (baseline s n)) (User n)"
  "Nice (loopBody s n) = ratchet (Nice (baseline s n)) (Nice n)"
  "System (loopBody s n) = ratchet (System (baseline s n)) (System n)"
  "Idle (loopBody s n) = ratchet (Idle (baseline s n)) (Idle n)"
  "Iowait (loopBody s n) = ratchet (Iowait (baseline s n)) (Iowait n)"
  "IRQ (loopBody s n) = IRQ (baseline s n)"
  "SoftIRQ (loopBody s n) = SoftIRQ (baseline s n)"
  "Steal (loopBody s n) = Steal (baseline s n)"
  "Guest (loopBody s n) = Guest (baseline s n)"
  "GuestNice (loopBody s n) = GuestNice (baseline s n)"
  unfolding loopBody_def Let_def ratchet_def baseline_def
  by simp_all

lemma loopBodyRest_fields:
  "User (loopBodyRest s n) = User s"
  "Nice (loopBodyRest s n) = Nice s"
  "System (loopBodyRest s n) = System s"
  "Idle (loopBodyRest s n) = Idle s"
  "Iowait (loopBodyRest s n) = Iowait s"
  "IRQ (loopBodyRest s n) = ratchet (IRQ s) (IRQ n)"
  "SoftIRQ (loopBodyRest s n) = ratchet (SoftIRQ s) (SoftIRQ n)"
  "Steal (loopBodyRest s n) = ratchet (Steal s) (Steal n)"
  "Guest (loopBodyRest s n) = ratchet (Guest s) (Guest n)"
  "GuestNice (loopBodyRest s n) = ratchet (GuestNice s) (GuestNice n)"
  unfolding loopBodyRest_def Let_def ratchet_def
  by simp_all

text \<open>Every counter of the updated entry is the ratchet of its baseline and the raw value.\<close>

lemma updateEntry_fields:
  "User (updateEntry s n) = ratchet (User (baseline s n)) (User n)"
  "Nice (updateEntry s n) = ratchet (Nice (baseline s n)) (Nice n)"
  "System (updateEntry s n) = ratchet (System (baseline s n)) (System n)"
  "Idle (updateEntry s n) = ratchet (Idle (baseline s n)) (Idle n)"
  "Iowait (updateEntry s n) = ratchet (Iowait (baseline s n)) (Iowait n)"
  "IRQ (updateEntry s n) = ratchet (IRQ (baseline s n)) (IRQ n)"
  "SoftIRQ (updateEntry s n) = ratchet (SoftIRQ (baseline s n)) (SoftIRQ n)"
  "Steal (updateEntry s n) = ratchet (Steal (baseline s n)) (Steal n)"
  "Guest (updateEntry s n) = ratchet (Guest (baseline s n)) (Guest n)"
  "GuestNice (updateEntry s n) = ratchet (GuestNice (baseline s n)) (GuestNice n)"
  by (simp_all only: updateEntry_def loopBody_fields loopBodyRest_fields)

lemma CPUStat_eqI:
  fixes a b :: CPUStat
  assumes "User a = User b" "Nice a = Nice b" "System a = System b" "Idle a = Idle b"
    "Iowait a = Iowait b" "IRQ a = IRQ b" "SoftIRQ a = SoftIRQ b" "Steal a = Steal b"
    "Guest a = Guest b" "GuestNice a = GuestNice b"
  shows "a = b"
  using assms by (intro CPUStat.equality) simp_all

lemma CPUStat_zero_fields:
  "User CPUStat_zero = 0" "Nice CPUStat_zero = 0" "System CPUStat_zero = 0"
  "Idle CPUStat_zero = 0" "Iowait CPUStat_zero = 0" "IRQ CPUStat_zero = 0"
  "SoftIRQ CPUStat_zero = 0" "Steal CPUStat_zero = 0" "Guest CPUStat_zero = 0"
  "GuestNice CPUStat_zero = 0"
  by (simp_all add: CPUStat_zero_def)

lemma ratchet_ge: "c \<le> ratchet c r"
  by (simp add: ratchet_def)

lemma ratchet_adopt: "c \<le> r \<Longrightarrow> ratchet c r = r"
  by (simp add: ratchet_def)

lemma ratchet_keep: "r < c \<Longrightarrow> ratchet c r = c"
  by (simp add: ratchet_def)

lemma ratchet_idem: "ratchet (ratchet c r) r = ratchet c r"
  by (simp add: ratchet_def)

lemma baseline_keep:
  "\<not> float64_sub (Idle s) (Idle n) \<ge> jumpBackSeconds \<Longrightarrow> baseline s n = s"
  by (simp add: baseline_def)

lemma baseline_reset:
  "float64_sub (Idle s) (Idle n) \<ge> jumpBackSeconds \<Longrightarrow> baseline s n = CPUStat_zero"
  by (simp add: baseline_def)

lemma baseline_zero: "baseline CPUStat_zero n = CPUStat_zero"
  by (simp add: baseline_def)

lemma updateEntry_mono:
  "\<not> float64_sub (Idle s) (Idle n) \<ge> jumpBackSeconds \<Longrightarrow> CPUStat_le s (updateEntry s n)"
  by (simp add: CPUStat_le_def updateEntry_fields baseline_keep ratchet_ge)

lemma updateEntry_adopt:
  assumes "CPUStat_le s n"
  shows "updateEntry s n = n"
proof -
  have "Idle s \<le> Idle n" using assms by (simp add: CPUStat_le_def)
  then have b: "baseline s n = s" by (intro baseline_keep no_jump_back_forward)
  show ?thesis
    using assms
    by (intro CPUStat_eqI) (simp_all add: updateEntry_fields b CPUStat_le_def ratchet_adopt)
qed

lemma updateEntry_after_reset:
  assumes "float64_sub (Idle s) (Idle n) \<ge> jumpBackSeconds"
  shows "updateEntry s n = updateEntry CPUStat_zero n"
proof -
  have "baseline s n = CPUStat_zero" using assms by (rule baseline_reset)
  then show ?thesis
    by (intro CPUStat_eqI) (simp_all only: updateEntry_fields baseline_zero)
qed

lemma updateEntry_zero_idem:
  "updateEntry (updateEntry CPUStat_zero n) n = updateEntry CPUStat_zero n"
proof (cases "float64_sub (Idle (updateEntry CPUStat_zero n)) (Idle n) \<ge> jumpBackSeconds")
  case True
  then show ?thesis by (rule updateEntry_after_reset)
next
  case False
  let ?u = "updateEntry CPUStat_zero n"
  have b: "baseline ?u n = ?u" using False by (rule baseline_keep)
  show ?thesis
    by (intro CPUStat_eqI)
      (simp_all add: updateEntry_fields [of ?u n] b updateEntry_fields [of CPUStat_zero n] ratchet_idem)
qed

lemma updateEntry_idem: "updateEntry (updateEntry s n) n = updateEntry s n"
proof (cases "float64_sub (Idle s) (Idle n) \<ge> jumpBackSeconds")
  case True
  then show ?thesis by (simp only: updateEntry_after_reset updateEntry_zero_idem)
next
  case False
  let ?u = "updateEntry s n"
  have b: "baseline s n = s" using False by (rule baseline_keep)
  have "Idle ?u = ratchet (Idle s) (Idle n)" by (simp only: updateEntry_fields b)
  with False have "\<not> float64_sub (Idle ?u) (Idle n) \<ge> jumpBackSeconds"
    by (cases "Idle s \<le> Idle n") (simp_all add: ratchet_def no_jump_back_forward)
  then have b': "baseline ?u n = ?u" by (rule baseline_keep)
  show ?thesis
    by (intro CPUStat_eqI)
      (simp_all add: updateEntry_fields [of ?u n] b' updateEntry_fields [of s n] ratchet_idem)
qed

section \<open>Properties of the loop over all CPUs\<close>

text \<open>
  The in-place loop from index \<open>k\<close> leaves the entries below \<open>k\<close> and updates each later
  entry with the raw reading of its own index.
\<close>

lemma loop_cpuStats:
  "length (cpuStats c) = k + length ns \<Longrightarrow>
   cpuStats (foldl loopStep c (enumerate k ns)) =
     take k (cpuStats c) @ map (\<lambda>(s, n). updateEntry s n) (zip (drop k (cpuStats c)) ns)"
proof (induction ns arbitrary: c k)
  case Nil
  then show ?case by simp
next
  case (Cons n ns)
  let ?c' = "loopStep c (k, n)"
  have len: "length (cpuStats ?c') = Suc k + length ns"
    using Cons.prems by (simp add: loopStep_def)
  have k: "k < length (cpuStats c)" using Cons.prems by simp
  have "cpuStats (foldl loopStep c (enumerate k (n # ns))) =
        cpuStats (foldl loopStep ?c' (enumerate (Suc k) ns))" by simp
  also have "\<dots> = take (Suc k) (cpuStats ?c') @
       map (\<lambda>(s, n). updateEntry s n) (zip (drop (Suc k) (cpuStats ?c')) ns)"
    using Cons.IH [OF len] .
  also have "take (Suc k) (cpuStats ?c') = take k (cpuStats c) @ [updateEntry (cpuStats c ! k) n]"
    using k by (simp add: loopStep_def take_Suc_conv_app_nth)
  also have "drop (Suc k) (cpuStats ?c') = drop (Suc k) (cpuStats c)"
    by (simp add: loopStep_def)
  finally show ?case using k by (simp add: Cons_nth_drop_Suc [symmetric])
qed

lemma length_resetCache: "length (cpuStats (resetCache c ns)) = length ns"
  by (simp add: resetCache_def)

lemma resetCache_same: "length (cpuStats c) = length ns \<Longrightarrow> resetCache c ns = c"
  by (simp add: resetCache_def)

lemma resetCache_differs:
  "length (cpuStats c) \<noteq> length ns \<Longrightarrow>
   cpuStats (resetCache c ns) = replicate (length ns) CPUStat_zero"
  by (simp add: resetCache_def)

lemma updateCPUStats_cpuStats:
  "cpuStats (updateCPUStats c ns) =
     map (\<lambda>(s, n). updateEntry s n) (zip (cpuStats (resetCache c ns)) ns)"
  using loop_cpuStats [of "resetCache c ns" 0 ns]
  by (simp add: updateCPUStats_def length_resetCache)

lemma length_updateCPUStats: "length (cpuStats (updateCPUStats c ns)) = length ns"
  by (simp add: updateCPUStats_cpuStats length_resetCache)

lemma updateCPUStats_nth:
  "i < length ns \<Longrightarrow>
   cpuStats (updateCPUStats c ns) ! i = updateEntry (cpuStats (resetCache c ns) ! i) (ns ! i)"
  by (simp add: updateCPUStats_cpuStats length_resetCache)

lemma foldl_take_Suc:
  "k < length xs \<Longrightarrow> foldl f a (take (Suc k) xs) = f (foldl f a (take k xs)) (xs ! k)"
  by (simp add: take_Suc_conv_app_nth)

section \<open>Claims about the consolidation\<close>

text \<open>
  C1. Along any sequence of calls of \<open>updateCPUStats\<close> with arbitrary raw readings, from
  any cache: at the \<open>k\<close>-th call, if the number of CPUs of the reading is the length of the
  cache (no topology change) and the idle jump-back test of the code does not fire for
  CPU \<open>i\<close> (the \<^verbatim>\<open>float64\<close> difference of cached and raw idle is below
  \<open>jumpBackSeconds\<close>), then no counter of CPU \<open>i\<close> in the cache after the call is below
  its value in the cache before the call.
\<close>

theorem updateCPUStats_never_decreases:
  fixes c :: cpuCollector and snaps :: "CPUStat list list"
  assumes "k < length snaps"
    and "length (cpuStats (foldl updateCPUStats c (take k snaps))) = length (snaps ! k)"
    and "i < length (snaps ! k)"
    and "\<not> float64_sub (Idle (cpuStats (foldl updateCPUStats c (take k snaps)) ! i))
             (Idle (snaps ! k ! i)) \<ge> jumpBackSeconds"
  shows "CPUStat_le (cpuStats (foldl updateCPUStats c (take k snaps)) ! i)
                    (cpuStats (foldl updateCPUStats c (take (Suc k) snaps)) ! i)"
proof -
  let ?before = "foldl updateCPUStats c (take k snaps)"
  have "cpuStats (foldl updateCPUStats c (take (Suc k) snaps)) ! i =
        cpuStats (updateCPUStats ?before (snaps ! k)) ! i"
    using assms(1) by (simp only: foldl_take_Suc)
  also have "\<dots> = updateEntry (cpuStats (resetCache ?before (snaps ! k)) ! i) (snaps ! k ! i)"
    using assms(3) by (rule updateCPUStats_nth)
  also have "resetCache ?before (snaps ! k) = ?before"
    using assms(2) by (rule resetCache_same)
  finally show ?thesis
    using updateEntry_mono [OF assms(4)] by simp
qed

theorem updateCPUStats_never_decreases_witness:
  "(1::nat) < length [[CPUStat_zero\<lparr>Idle := 10, User := 5\<rparr>], [CPUStat_zero\<lparr>Idle := 9, User := 7\<rparr>]] \<and>
   length (cpuStats (foldl updateCPUStats newCPUCollectorState
      (take 1 [[CPUStat_zero\<lparr>Idle := 10, User := 5\<rparr>], [CPUStat_zero\<lparr>Idle := 9, User := 7\<rparr>]]))) =
     length ([[CPUStat_zero\<lparr>Idle := 10, User := 5\<rparr>], [CPUStat_zero\<lparr>Idle := 9, User := 7\<rparr>]] ! 1) \<and>
   (0::nat) < length ([[CPUStat_zero\<lparr>Idle := 10, User := 5\<rparr>], [CPUStat_zero\<lparr>Idle := 9, User := 7\<rparr>]] ! 1) \<and>
   \<not> float64_sub
       (Idle (cpuStats (foldl updateCPUStats newCPUCollectorState
          (take 1 [[CPUStat_zero\<lparr>Idle := 10, User := 5\<rparr>], [CPUStat_zero\<lparr>Idle := 9, User := 7\<rparr>]])) ! 0))
       (Idle ([[CPUStat_zero\<lparr>Idle := 10, User := 5\<rparr>], [CPUStat_zero\<lparr>Idle := 9, User := 7\<rparr>]] ! 1 ! 0))
       \<ge> jumpBackSeconds \<and>
   CPUStat_le
     (cpuStats (foldl updateCPUStats newCPUCollectorState
        (take 1 [[CPUStat_zero\<lparr>Idle := 10, User := 5\<rparr>], [CPUStat_zero\<lparr>Idle := 9, User := 7\<rparr>]])) ! 0)
     (cpuStats (foldl updateCPUStats newCPUCollectorState
        (take (Suc 1) [[CPUStat_zero\<lparr>Idle := 10, User := 5\<rparr>], [CPUStat_zero\<lparr>Idle := 9, User := 7\<rparr>]])) ! 0)"
proof -
  let ?a = "CPUStat_zero\<lparr>Idle := 10, User := 5\<rparr>"
  let ?b = "CPUStat_zero\<lparr>Idle := 9, User := 7\<rparr>"
  have first: "cpuStats (foldl updateCPUStats newCPUCollectorState (take 1 [[?a], [?b]])) = [?a]"
    by (simp add: updateCPUStats_cpuStats resetCache_def newCPUCollectorState_def updateEntry_adopt
        CPUStat_le_def CPUStat_zero_def)
  have h1: "(1::nat) < length [[?a], [?b]]" by simp
  have h2: "length (cpuStats (foldl updateCPUStats newCPUCollectorState (take 1 [[?a], [?b]]))) =
      length ([[?a], [?b]] ! 1)"
    by (simp only: first) simp
  have h3: "(0::nat) < length ([[?a], [?b]] ! 1)" by simp
  have h4: "\<not> float64_sub
      (Idle (cpuStats (foldl updateCPUStats newCPUCollectorState (take 1 [[?a], [?b]])) ! 0))
      (Idle ([[?a], [?b]] ! 1 ! 0)) \<ge> jumpBackSeconds"
    by (simp only: first) (rule no_jump_back_small, simp_all)
  from updateCPUStats_never_decreases [OF h1 h2 h3 h4] h1 h2 h3 h4
  show ?thesis by blast
qed

text \<open>
  C6. The consolidation is idempotent: a second call with the same raw reading leaves the
  collector as the first call left it.
\<close>

theorem updateCPUStats_idempotent:
  "updateCPUStats (updateCPUStats c ns) ns = updateCPUStats c ns"
proof -
  let ?c1 = "updateCPUStats c ns"
  have r: "resetCache ?c1 ns = ?c1"
    by (rule resetCache_same) (rule length_updateCPUStats)
  have "cpuStats (updateCPUStats ?c1 ns) = cpuStats ?c1"
  proof (rule nth_equalityI)
    show "length (cpuStats (updateCPUStats ?c1 ns)) = length (cpuStats ?c1)"
      by (simp only: length_updateCPUStats)
  next
    fix i assume "i < length (cpuStats (updateCPUStats ?c1 ns))"
    then have i: "i < length ns" by (simp only: length_updateCPUStats)
    show "cpuStats (updateCPUStats ?c1 ns) ! i = cpuStats ?c1 ! i"
      by (simp only: updateCPUStats_nth [OF i] r updateEntry_idem)
  qed
  then show ?thesis by simp
qed

lemma map_updateEntry_replicate:
  "map (\<lambda>(s, n). updateEntry s n) (zip (replicate (length ns) z) ns) = map (updateEntry z) ns"
  by (induction ns) simp_all

lemma map_updateEntry_adopt:
  "list_all2 CPUStat_le xs ns \<Longrightarrow> map (\<lambda>(s, n). updateEntry s n) (zip xs ns) = ns"
  by (induction xs ns rule: list_all2_induct) (simp_all add: updateEntry_adopt)

lemma map_updateEntry_zero_adopt:
  "list_all (CPUStat_le CPUStat_zero) ns \<Longrightarrow> map (updateEntry CPUStat_zero) ns = ns"
  by (induction ns) (simp_all add: updateEntry_adopt)

lemma updateCPUStats_adopt:
  assumes "list_all2 CPUStat_le (cpuStats c) ns"
  shows "cpuStats (updateCPUStats c ns) = ns"
proof -
  have "length (cpuStats c) = length ns" using assms by (rule list_all2_lengthD)
  then have "resetCache c ns = c" by (rule resetCache_same)
  then show ?thesis using assms by (simp add: updateCPUStats_cpuStats map_updateEntry_adopt)
qed

lemma resetCache_new:
  "cpuStats (resetCache newCPUCollectorState ns) = replicate (length ns) CPUStat_zero"
  by (simp add: resetCache_def newCPUCollectorState_def)

lemma updateCPUStats_new:
  "cpuStats (updateCPUStats newCPUCollectorState ns) = map (updateEntry CPUStat_zero) ns"
  by (simp only: updateCPUStats_cpuStats resetCache_new map_updateEntry_replicate)

lemma nonDecreasing_nth:
  "nonDecreasing snaps \<Longrightarrow> Suc k < length snaps \<Longrightarrow>
   list_all2 CPUStat_le (snaps ! k) (snaps ! Suc k)"
proof (induction snaps arbitrary: k rule: nonDecreasing.induct)
  case (3 a b rest)
  then show ?case by (cases k) simp_all
qed simp_all

text \<open>
  C5. When the number of CPUs of the raw reading differs from the length of the cache,
  the cache after the call has the new length and every entry is the update of the zero
  entry with the raw reading: nothing of the old cache is in the result, which is the
  result for an all-zero cache of the new length. A later reading with yet another number
  of CPUs (a CPU removed, then added again) starts from zero entries once more.
\<close>

theorem topology_change_discards_cache:
  fixes c :: cpuCollector
  assumes "length (cpuStats c) \<noteq> length ns"
  shows "length (cpuStats (updateCPUStats c ns)) = length ns \<and>
         cpuStats (updateCPUStats c ns) = map (updateEntry CPUStat_zero) ns \<and>
         updateCPUStats c ns =
           updateCPUStats (c\<lparr>cpuStats := replicate (length ns) CPUStat_zero\<rparr>) ns \<and>
         (\<forall>ns'. length ns' \<noteq> length ns \<longrightarrow>
            cpuStats (updateCPUStats (updateCPUStats c ns) ns') = map (updateEntry CPUStat_zero) ns')"
proof -
  have discard: "cpuStats (updateCPUStats d ms) = map (updateEntry CPUStat_zero) ms"
    if "length (cpuStats d) \<noteq> length ms" for d :: cpuCollector and ms
    using that by (simp add: updateCPUStats_cpuStats resetCache_differs map_updateEntry_replicate)
  have zeros: "cpuStats (updateCPUStats (c\<lparr>cpuStats := replicate (length ns) CPUStat_zero\<rparr>) ns)
      = map (updateEntry CPUStat_zero) ns"
    by (simp add: updateCPUStats_cpuStats resetCache_def map_updateEntry_replicate)
  have "updateCPUStats c ns = updateCPUStats (c\<lparr>cpuStats := replicate (length ns) CPUStat_zero\<rparr>) ns"
    using discard [OF assms] zeros by simp
  moreover have "cpuStats (updateCPUStats (updateCPUStats c ns) ns') = map (updateEntry CPUStat_zero) ns'"
    if "length ns' \<noteq> length ns" for ns'
    using that by (intro discard) (simp add: length_updateCPUStats)
  ultimately show ?thesis
    using discard [OF assms] by (simp add: length_updateCPUStats)
qed

theorem topology_change_discards_cache_witness:
  "length (cpuStats \<lparr>cpuStats = [CPUStat_zero\<lparr>Idle := 100, User := 50\<rparr>, CPUStat_zero\<lparr>Idle := 90, User := 40\<rparr>]\<rparr>)
     \<noteq> length [CPUStat_zero\<lparr>Idle := 20, User := 3\<rparr>] \<and>
   cpuStats (updateCPUStats
      \<lparr>cpuStats = [CPUStat_zero\<lparr>Idle := 100, User := 50\<rparr>, CPUStat_zero\<lparr>Idle := 90, User := 40\<rparr>]\<rparr>
      [CPUStat_zero\<lparr>Idle := 20, User := 3\<rparr>]) = [CPUStat_zero\<lparr>Idle := 20, User := 3\<rparr>] \<and>
   cpuStats (updateCPUStats (updateCPUStats
      \<lparr>cpuStats = [CPUStat_zero\<lparr>Idle := 100, User := 50\<rparr>, CPUStat_zero\<lparr>Idle := 90, User := 40\<rparr>]\<rparr>
      [CPUStat_zero\<lparr>Idle := 20, User := 3\<rparr>])
      [CPUStat_zero\<lparr>Idle := 19, User := 2\<rparr>, CPUStat_zero\<lparr>Idle := 1\<rparr>])
     = [CPUStat_zero\<lparr>Idle := 19, User := 2\<rparr>, CPUStat_zero\<lparr>Idle := 1\<rparr>]"
proof -
  let ?c = "\<lparr>cpuStats = [CPUStat_zero\<lparr>Idle := 100, User := 50\<rparr>, CPUStat_zero\<lparr>Idle := 90, User := 40\<rparr>]\<rparr>"
  let ?ns = "[CPUStat_zero\<lparr>Idle := 20, User := 3\<rparr>]"
  let ?ns' = "[CPUStat_zero\<lparr>Idle := 19, User := 2\<rparr>, CPUStat_zero\<lparr>Idle := 1\<rparr>]"
  have h: "length (cpuStats ?c) \<noteq> length ?ns" by simp
  have h': "length ?ns' \<noteq> length ?ns" by simp
  have a: "map (updateEntry CPUStat_zero) ?ns = ?ns"
    by (rule map_updateEntry_zero_adopt) (simp add: CPUStat_le_def CPUStat_zero_def)
  have b: "map (updateEntry CPUStat_zero) ?ns' = ?ns'"
    by (rule map_updateEntry_zero_adopt) (simp add: CPUStat_le_def CPUStat_zero_def)
  from topology_change_discards_cache [OF h] h' a b h show ?thesis
    by metis
qed

text \<open>
  C2, as stated, fails: the first call compares the raw reading with the zero entries of
  the freshly allocated cache, so a raw counter below zero is not adopted. Here the only
  reading has \<open>User = -1\<close> and the cache keeps \<open>User = 0\<close>.
\<close>

theorem ratchet_noop_counterexample:
  "nonDecreasing [[CPUStat_zero\<lparr>User := - 1\<rparr>]] \<and>
   cpuStats (foldl updateCPUStats newCPUCollectorState (take (Suc 0) [[CPUStat_zero\<lparr>User := - 1\<rparr>]]))
     \<noteq> [[CPUStat_zero\<lparr>User := - 1\<rparr>]] ! 0 \<and>
   User (cpuStats (foldl updateCPUStats newCPUCollectorState
           (take (Suc 0) [[CPUStat_zero\<lparr>User := - 1\<rparr>]])) ! 0) = 0"
proof -
  let ?n = "CPUStat_zero\<lparr>User := - 1\<rparr>"
  have run: "cpuStats (foldl updateCPUStats newCPUCollectorState (take (Suc 0) [[?n]]))
      = [updateEntry CPUStat_zero ?n]"
    by (simp add: updateCPUStats_new)
  have user: "User (updateEntry CPUStat_zero ?n) = 0"
    by (simp add: updateEntry_fields baseline_zero CPUStat_zero_fields ratchet_def)
  then have "updateEntry CPUStat_zero ?n \<noteq> ?n"
    by (auto simp: CPUStat_zero_def)
  with run user show ?thesis by simp
qed

text \<open>
  C2, amended. For a freshly constructed collector and every sequence of raw readings
  with a constant number of CPUs in which no counter of the first reading is negative and
  no counter of any CPU decreases from one reading to the next, the cache after each call
  is the raw reading just supplied.
\<close>

theorem ratchet_noop_on_nonnegative_nondecreasing:
  assumes "nonDecreasing snaps"
    and "list_all (CPUStat_le CPUStat_zero) (snaps ! 0)"
    and "k < length snaps"
  shows "cpuStats (foldl updateCPUStats newCPUCollectorState (take (Suc k) snaps)) = snaps ! k"
  using assms(3)
proof (induction k)
  case 0
  then have "foldl updateCPUStats newCPUCollectorState (take (Suc 0) snaps) =
      updateCPUStats newCPUCollectorState (snaps ! 0)"
    by (simp only: foldl_take_Suc) simp
  then show ?case
    using assms(2) by (simp only: updateCPUStats_new map_updateEntry_zero_adopt)
next
  case (Suc k)
  let ?before = "foldl updateCPUStats newCPUCollectorState (take (Suc k) snaps)"
  have before: "cpuStats ?before = snaps ! k" using Suc by simp
  have "list_all2 CPUStat_le (snaps ! k) (snaps ! Suc k)"
    using assms(1) Suc.prems by (rule nonDecreasing_nth)
  then have "cpuStats (updateCPUStats ?before (snaps ! Suc k)) = snaps ! Suc k"
    by (intro updateCPUStats_adopt) (simp only: before)
  then show ?case using Suc.prems by (simp only: foldl_take_Suc)
qed

theorem ratchet_noop_on_nonnegative_nondecreasing_witness:
  "nonDecreasing [[CPUStat_zero\<lparr>Idle := 10, User := 5\<rparr>], [CPUStat_zero\<lparr>Idle := 12, User := 5\<rparr>]] \<and>
   list_all (CPUStat_le CPUStat_zero)
     ([[CPUStat_zero\<lparr>Idle := 10, User := 5\<rparr>], [CPUStat_zero\<lparr>Idle := 12, User := 5\<rparr>]] ! 0) \<and>
   (1::nat) < length [[CPUStat_zero\<lparr>Idle := 10, User := 5\<rparr>], [CPUStat_zero\<lparr>Idle := 12, User := 5\<rparr>]] \<and>
   cpuStats (foldl updateCPUStats newCPUCollectorState
      (take (Suc 1) [[CPUStat_zero\<lparr>Idle := 10, User := 5\<rparr>], [CPUStat_zero\<lparr>Idle := 12, User := 5\<rparr>]]))
     = [CPUStat_zero\<lparr>Idle := 12, User := 5\<rparr>]"
proof -
  let ?snaps = "[[CPUStat_zero\<lparr>Idle := 10, User := 5\<rparr>], [CPUStat_zero\<lparr>Idle := 12, User := 5\<rparr>]]"
  have h1: "nonDecreasing ?snaps" by (simp add: CPUStat_le_def CPUStat_zero_def)
  have h2: "list_all (CPUStat_le CPUStat_zero) (?snaps ! 0)"
    by (simp add: CPUStat_le_def CPUStat_zero_def)
  have h3: "(1::nat) < length ?snaps" by simp
  from ratchet_noop_on_nonnegative_nondecreasing [OF h1 h2 h3] h1 h2 h3
  show ?thesis by simp
qed

lemma updateCPUStats_two:
  "cpuStats (updateCPUStats \<lparr>cpuStats = [c0, c1]\<rparr> [r0, r1]) = [updateEntry c0 r0, updateEntry c1 r1]"
  by (simp add: updateCPUStats_cpuStats resetCache_def)

lemma ratchet_zero: "ratchet 0 r = max 0 r"
  by (simp add: ratchet_def max_def)

lemma updateEntry_zero:
  "updateEntry CPUStat_zero n =
     \<lparr>User = max 0 (User n), Nice = max 0 (Nice n), System = max 0 (System n),
      Idle = max 0 (Idle n), Iowait = max 0 (Iowait n), IRQ = max 0 (IRQ n),
      SoftIRQ = max 0 (SoftIRQ n), Steal = max 0 (Steal n), Guest = max 0 (Guest n),
      GuestNice = max 0 (GuestNice n)\<rparr>"
  by (intro CPUStat_eqI)
    (simp_all add: updateEntry_fields baseline_zero CPUStat_zero_fields ratchet_zero)

lemma Itoa_0: "Itoa 0 = ''0''"
  by (simp add: Itoa.simps digit_def)

lemma idle_sample_of_first_cpu:
  "cpuStats c' = s # rest \<Longrightarrow>
   MustNewConstMetric cpu CounterValue (Idle s) [''0'', ''idle'']
     \<in> set (concat (map (emitCPUStat g) (enumerate 0 (cpuStats c'))))"
  by (simp add: emitCPUStat_def Itoa_0 Let_def)

text \<open>
  C3, as stated, fails: after the reset the counter blocks still run, so the zeroed entry
  of CPU 0 takes the new raw reading at once. With cached idle 100 and raw idle 96.5 the
  cache (and the emitted idle sample) of CPU 0 holds 96.5 and the raw user value 7, not
  zero.
\<close>

theorem idle_jump_back_counterexample:
  "Idle (CPUStat_zero\<lparr>Idle := 100, User := 50\<rparr>) = 100 \<and>
   Idle (CPUStat_zero\<lparr>Idle := 96.5, User := 7\<rparr>) = 96.5 \<and>
   cpuStats (updateCPUStats
      \<lparr>cpuStats = [CPUStat_zero\<lparr>Idle := 100, User := 50\<rparr>, CPUStat_zero\<lparr>Idle := 80, User := 40\<rparr>]\<rparr>
      [CPUStat_zero\<lparr>Idle := 96.5, User := 7\<rparr>, CPUStat_zero\<lparr>Idle := 81, User := 41\<rparr>]) ! 0
     = CPUStat_zero\<lparr>Idle := 96.5, User := 7\<rparr> \<and>
   CPUStat_zero\<lparr>Idle := 96.5, User := 7\<rparr> \<noteq> CPUStat_zero"
proof -
  let ?c0 = "CPUStat_zero\<lparr>Idle := 100, User := 50\<rparr>"
  let ?r0 = "CPUStat_zero\<lparr>Idle := 96.5, User := 7\<rparr>"
  have "float64_sub (Idle ?c0) (Idle ?r0) \<ge> jumpBackSeconds" by (rule jump_back_large) simp
  then have "updateEntry ?c0 ?r0 = updateEntry CPUStat_zero ?r0" by (rule updateEntry_after_reset)
  also have "\<dots> = ?r0"
    by (rule updateEntry_adopt) (simp add: CPUStat_le_def CPUStat_zero_def)
  finally have "updateEntry ?c0 ?r0 = ?r0" .
  moreover have "?r0 \<noteq> CPUStat_zero" by (simp add: CPUStat_zero_def)
  ultimately show ?thesis by (simp add: updateCPUStats_two)
qed

text \<open>
  C3, amended. For a two-CPU cache where CPU 0 has cached idle 100 and the raw reading of
  CPU 0 has idle 96.5, \<open>updateCPUStats\<close> discards the cached entry of CPU 0 and restarts
  it from zero within the same call: each counter of CPU 0 becomes the raw value, or zero
  where the raw value is negative, so its idle counter and the idle sample that \<open>Update\<close>
  emits for CPU 0 are 96.5. The entry of CPU 1 is the update of its own cached entry with
  its own raw reading, whatever the cache and the reading of CPU 0 are.
\<close>

theorem idle_jump_back_restarts_cpu:
  assumes "Idle c0 = 100" and "Idle r0 = 96.5"
  shows "cpuStats (updateCPUStats \<lparr>cpuStats = [c0, c1]\<rparr> [r0, r1]) =
           [\<lparr>User = max 0 (User r0), Nice = max 0 (Nice r0), System = max 0 (System r0),
             Idle = 96.5, Iowait = max 0 (Iowait r0), IRQ = max 0 (IRQ r0),
             SoftIRQ = max 0 (SoftIRQ r0), Steal = max 0 (Steal r0), Guest = max 0 (Guest r0),
             GuestNice = max 0 (GuestNice r0)\<rparr>,
            updateEntry c1 r1] \<and>
         MustNewConstMetric cpu CounterValue 96.5 [''0'', ''idle'']
           \<in> set (fst (snd (cpuCollector_Update g \<lparr>cpuStats = [c0, c1]\<rparr> [r0, r1])))"
proof -
  let ?c = "\<lparr>cpuStats = [c0, c1]\<rparr>"
  let ?e = "\<lparr>User = max 0 (User r0), Nice = max 0 (Nice r0), System = max 0 (System r0),
             Idle = 96.5, Iowait = max 0 (Iowait r0), IRQ = max 0 (IRQ r0),
             SoftIRQ = max 0 (SoftIRQ r0), Steal = max 0 (Steal r0), Guest = max 0 (Guest r0),
             GuestNice = max 0 (GuestNice r0)\<rparr>"
  have "float64_sub (Idle c0) (Idle r0) \<ge> jumpBackSeconds"
    using assms by (intro jump_back_large) simp
  then have "updateEntry c0 r0 = updateEntry CPUStat_zero r0" by (rule updateEntry_after_reset)
  also have "\<dots> = ?e" using assms(2) by (simp add: updateEntry_zero)
  finally have cache: "cpuStats (updateCPUStats ?c [r0, r1]) = [?e, updateEntry c1 r1]"
    by (simp add: updateCPUStats_two)
  have "MustNewConstMetric cpu CounterValue (Idle ?e) [''0'', ''idle'']
      \<in> set (concat (map (emitCPUStat g) (enumerate 0 (cpuStats (updateCPUStats ?c [r0, r1])))))"
    using cache by (rule idle_sample_of_first_cpu)
  then have "MustNewConstMetric cpu CounterValue 96.5 [''0'', ''idle'']
      \<in> set (fst (snd (cpuCollector_Update g ?c [r0, r1])))"
    by (simp add: cpuCollector_Update_def Let_def)
  with cache show ?thesis by simp
qed

theorem idle_jump_back_restarts_cpu_witness:
  "Idle (CPUStat_zero\<lparr>Idle := 100, User := 50\<rparr>) = 100 \<and>
   Idle (CPUStat_zero\<lparr>Idle := 96.5, User := 7\<rparr>) = 96.5 \<and>
   cpuStats (updateCPUStats
      \<lparr>cpuStats = [CPUStat_zero\<lparr>Idle := 100, User := 50\<rparr>, CPUStat_zero\<lparr>Idle := 80, User := 40\<rparr>]\<rparr>
      [CPUStat_zero\<lparr>Idle := 96.5, User := 7\<rparr>, CPUStat_zero\<lparr>Idle := 79, User := 41\<rparr>])
     = [CPUStat_zero\<lparr>Idle := 96.5, User := 7\<rparr>, CPUStat_zero\<lparr>Idle := 80, User := 41\<rparr>] \<and>
   MustNewConstMetric cpu CounterValue 96.5 [''0'', ''idle'']
     \<in> set (fst (snd (cpuCollector_Update True
      \<lparr>cpuStats = [CPUStat_zero\<lparr>Idle := 100, User := 50\<rparr>, CPUStat_zero\<lparr>Idle := 80, User := 40\<rparr>]\<rparr>
      [CPUStat_zero\<lparr>Idle := 96.5, User := 7\<rparr>, CPUStat_zero\<lparr>Idle := 79, User := 41\<rparr>])))"
proof -
  let ?c0 = "CPUStat_zero\<lparr>Idle := 100, User := 50\<rparr>"
  let ?c1 = "CPUStat_zero\<lparr>Idle := 80, User := 40\<rparr>"
  let ?r0 = "CPUStat_zero\<lparr>Idle := 96.5, User := 7\<rparr>"
  let ?r1 = "CPUStat_zero\<lparr>Idle := 79, User := 41\<rparr>"
  have h1: "Idle ?c0 = 100" by simp
  have h2: "Idle ?r0 = 96.5" by simp
  have "\<not> float64_sub (Idle ?c1) (Idle ?r1) \<ge> jumpBackSeconds"
    by (rule no_jump_back_small) simp_all
  then have b1: "baseline ?c1 ?r1 = ?c1" by (rule baseline_keep)
  have e1: "updateEntry ?c1 ?r1 = CPUStat_zero\<lparr>Idle := 80, User := 41\<rparr>"
    by (intro CPUStat_eqI)
      (simp_all only: updateEntry_fields b1, simp_all add: ratchet_def CPUStat_zero_def)
  have e0: "\<lparr>User = max 0 (User ?r0), Nice = max 0 (Nice ?r0), System = max 0 (System ?r0),
             Idle = 96.5, Iowait = max 0 (Iowait ?r0), IRQ = max 0 (IRQ ?r0),
             SoftIRQ = max 0 (SoftIRQ ?r0), Steal = max 0 (Steal ?r0), Guest = max 0 (Guest ?r0),
             GuestNice = max 0 (GuestNice ?r0)\<rparr> = ?r0"
    by (simp add: CPUStat_zero_def)
  from idle_jump_back_restarts_cpu [OF h1 h2, of ?c1 ?r1 True] h1 h2
  show ?thesis by (simp only: e0 e1)
qed

text \<open>
  C4. Let \<open>b\<close> be the cache that the loop reads (the cache itself, or the zero entries
  after a topology change). For a CPU index \<open>i\<close> for which the idle jump-back test of
  the code does not fire (the \<^verbatim>\<open>float64\<close> difference of cached and raw idle is below
  \<open>jumpBackSeconds\<close>) and any counter \<open>f\<close> other than idle whose raw value is below the cached one,
  however far: the cached value of \<open>f\<close> is kept; no counter of CPU \<open>i\<close> goes below
  its cached value, so the entry is not reset, and idle and every other counter is the
  ratchet of its own cached and raw value; every other CPU \<open>j\<close> gets the update of its own
  entry with its own reading.
\<close>

theorem non_idle_regression_is_absorbed:
  fixes c :: cpuCollector
  assumes "i < length ns"
    and "f \<in> set nonIdleFields"
    and "\<not> float64_sub (Idle (cpuStats (resetCache c ns) ! i)) (Idle (ns ! i))
             \<ge> jumpBackSeconds"
    and "f (ns ! i) < f (cpuStats (resetCache c ns) ! i)"
  shows "f (cpuStats (updateCPUStats c ns) ! i) = f (cpuStats (resetCache c ns) ! i) \<and>
         CPUStat_le (cpuStats (resetCache c ns) ! i) (cpuStats (updateCPUStats c ns) ! i) \<and>
         (\<forall>g \<in> set (Idle # nonIdleFields).
            g (cpuStats (updateCPUStats c ns) ! i) =
              ratchet (g (cpuStats (resetCache c ns) ! i)) (g (ns ! i))) \<and>
         (\<forall>j < length ns. j \<noteq> i \<longrightarrow>
            cpuStats (updateCPUStats c ns) ! j =
              updateEntry (cpuStats (resetCache c ns) ! j) (ns ! j))"
proof -
  let ?b = "cpuStats (resetCache c ns) ! i"
  have res: "cpuStats (updateCPUStats c ns) ! i = updateEntry ?b (ns ! i)"
    using assms(1) by (rule updateCPUStats_nth)
  have base: "baseline ?b (ns ! i) = ?b"
    using assms(3) by (rule baseline_keep)
  have all: "g (updateEntry ?b (ns ! i)) = ratchet (g ?b) (g (ns ! i))"
    if "g \<in> set (Idle # nonIdleFields)" for g
    using that by (auto simp: nonIdleFields_def updateEntry_fields base)
  have "f (updateEntry ?b (ns ! i)) = ratchet (f ?b) (f (ns ! i))"
    using assms(2) by (intro all) simp
  then have kept: "f (updateEntry ?b (ns ! i)) = f ?b"
    using assms(4) by (simp add: ratchet_keep)
  have mono: "CPUStat_le ?b (updateEntry ?b (ns ! i))"
    using assms(3) by (rule updateEntry_mono)
  have others: "\<forall>j < length ns. j \<noteq> i \<longrightarrow>
      cpuStats (updateCPUStats c ns) ! j = updateEntry (cpuStats (resetCache c ns) ! j) (ns ! j)"
    by (simp add: updateCPUStats_nth)
  show ?thesis
    using kept mono all others unfolding res by blast
qed

theorem non_idle_regression_is_absorbed_witness:
  "(0::nat) < length [CPUStat_zero\<lparr>Idle := 101, User := 49\<rparr>, CPUStat_zero] \<and>
   User \<in> set nonIdleFields \<and>
   \<not> float64_sub
       (Idle (cpuStats (resetCache
         \<lparr>cpuStats = [CPUStat_zero\<lparr>Idle := 100, User := 50\<rparr>, CPUStat_zero\<lparr>User := 9\<rparr>]\<rparr>
         [CPUStat_zero\<lparr>Idle := 101, User := 49\<rparr>, CPUStat_zero]) ! 0))
       (Idle ([CPUStat_zero\<lparr>Idle := 101, User := 49\<rparr>, CPUStat_zero] ! 0)) \<ge> jumpBackSeconds \<and>
   User ([CPUStat_zero\<lparr>Idle := 101, User := 49\<rparr>, CPUStat_zero] ! 0)
     < User (cpuStats (resetCache
         \<lparr>cpuStats = [CPUStat_zero\<lparr>Idle := 100, User := 50\<rparr>, CPUStat_zero\<lparr>User := 9\<rparr>]\<rparr>
         [CPUStat_zero\<lparr>Idle := 101, User := 49\<rparr>, CPUStat_zero]) ! 0) \<and>
   User (cpuStats (updateCPUStats
         \<lparr>cpuStats = [CPUStat_zero\<lparr>Idle := 100, User := 50\<rparr>, CPUStat_zero\<lparr>User := 9\<rparr>]\<rparr>
         [CPUStat_zero\<lparr>Idle := 101, User := 49\<rparr>, CPUStat_zero]) ! 0) = 50"
proof -
  let ?c = "\<lparr>cpuStats = [CPUStat_zero\<lparr>Idle := 100, User := 50\<rparr>, CPUStat_zero\<lparr>User := 9\<rparr>]\<rparr>"
  let ?ns = "[CPUStat_zero\<lparr>Idle := 101, User := 49\<rparr>, CPUStat_zero]"
  have r: "resetCache ?c ?ns = ?c" by (simp add: resetCache_def)
  have h1: "(0::nat) < length ?ns" by simp
  have h2: "User \<in> set nonIdleFields" by (simp add: nonIdleFields_def)
  have h3: "\<not> float64_sub (Idle (cpuStats (resetCache ?c ?ns) ! 0)) (Idle (?ns ! 0))
      \<ge> jumpBackSeconds"
    by (simp only: r) (rule no_jump_back_forward, simp)
  have h4: "User (?ns ! 0) < User (cpuStats (resetCache ?c ?ns) ! 0)"
    by (simp only: r) simp
  have "User (cpuStats (updateCPUStats ?c ?ns) ! 0) = User (cpuStats (resetCache ?c ?ns) ! 0)"
    using non_idle_regression_is_absorbed [OF h1 h2 h3 h4] by blast
  also have "\<dots> = 50" by (simp only: r) simp
  finally show ?thesis using h1 h2 h3 h4 by blast
qed

section \<open>Claims about emission and failure\<close>

lemma filter_guest_emitCPUStat:
  "filter (\<lambda>m. desc m = cpuGuest) (emitCPUStat g (cpuID, cpuStat)) =
     (if g then [MustNewConstMetric cpuGuest CounterValue (Guest cpuStat) [Itoa cpuID, ''user''],
                 MustNewConstMetric cpuGuest CounterValue (GuestNice cpuStat) [Itoa cpuID, ''nice'']]
      else [])"
  by (simp add: emitCPUStat_def Let_def)

lemma filter_guest_concat:
  "filter (\<lambda>m. desc m = cpuGuest) (concat (map (emitCPUStat g) xs)) =
     (if g
      then concat (map (\<lambda>(cpuID, cpuStat).
             [MustNewConstMetric cpuGuest CounterValue (Guest cpuStat) [Itoa cpuID, ''user''],
              MustNewConstMetric cpuGuest CounterValue (GuestNice cpuStat) [Itoa cpuID, ''nice'']])
             xs)
      else [])"
  by (induction xs) (auto simp: filter_guest_emitCPUStat)

lemma filter_not_guest_emitCPUStat:
  "filter (\<lambda>m. desc m \<noteq> cpuGuest) (emitCPUStat g p) = emitCPUStat False p"
  by (cases p) (simp add: emitCPUStat_def Let_def)

lemma emitted_cpuCollector_Update:
  "fst (snd (cpuCollector_Update g c ns)) =
     concat (map (emitCPUStat g) (enumerate 0 (cpuStats (updateCPUStats c ns))))"
  by (simp add: cpuCollector_Update_def Let_def)

text \<open>
  C7. The guest samples (descriptor \<open>cpuGuest\<close>) that \<open>Update\<close> emits are, with the
  toggle enabled, the cached \<open>Guest\<close> value under mode label "user" and the cached
  \<open>GuestNice\<close> value under mode label "nice" for each CPU of the cache, and none with the
  toggle disabled. The other samples are those emitted with the toggle disabled, and the
  user and nice samples carry the cached \<open>User\<close> and \<open>Nice\<close> values as they are. The
  toggle does not change the cache.
\<close>

theorem guest_samples_follow_the_toggle:
  "filter (\<lambda>m. desc m = cpuGuest) (fst (snd (cpuCollector_Update enableCPUGuest c ns))) =
     (if enableCPUGuest
      then concat (map (\<lambda>(cpuID, cpuStat).
             [MustNewConstMetric cpuGuest CounterValue (Guest cpuStat) [Itoa cpuID, ''user''],
              MustNewConstMetric cpuGuest CounterValue (GuestNice cpuStat) [Itoa cpuID, ''nice'']])
             (enumerate 0 (cpuStats (updateCPUStats c ns))))
      else []) \<and>
   filter (\<lambda>m. desc m \<noteq> cpuGuest) (fst (snd (cpuCollector_Update enableCPUGuest c ns))) =
     fst (snd (cpuCollector_Update False c ns)) \<and>
   fst (snd (cpuCollector_Update False c ns)) =
     concat (map (\<lambda>(cpuID, cpuStat).
        [MustNewConstMetric cpu CounterValue (User cpuStat) [Itoa cpuID, ''user''],
         MustNewConstMetric cpu CounterValue (Nice cpuStat) [Itoa cpuID, ''nice''],
         MustNewConstMetric cpu CounterValue (System cpuStat) [Itoa cpuID, ''system''],
         MustNewConstMetric cpu CounterValue (Idle cpuStat) [Itoa cpuID, ''idle''],
         MustNewConstMetric cpu CounterValue (Iowait cpuStat) [Itoa cpuID, ''iowait''],
         MustNewConstMetric cpu CounterValue (IRQ cpuStat) [Itoa cpuID, ''irq''],
         MustNewConstMetric cpu CounterValue (SoftIRQ cpuStat) [Itoa cpuID, ''softirq''],
         MustNewConstMetric cpu CounterValue (Steal cpuStat) [Itoa cpuID, ''steal'']])
        (enumerate 0 (cpuStats (updateCPUStats c ns)))) \<and>
   fst (cpuCollector_Update enableCPUGuest c ns) = updateCPUStats c ns"
proof -
  let ?cache = "enumerate 0 (cpuStats (updateCPUStats c ns))"
  have guest: "filter (\<lambda>m. desc m = cpuGuest) (concat (map (emitCPUStat enableCPUGuest) ?cache)) =
     (if enableCPUGuest
      then concat (map (\<lambda>(cpuID, cpuStat).
             [MustNewConstMetric cpuGuest CounterValue (Guest cpuStat) [Itoa cpuID, ''user''],
              MustNewConstMetric cpuGuest CounterValue (GuestNice cpuStat) [Itoa cpuID, ''nice'']])
             ?cache)
      else [])"
    by (rule filter_guest_concat)
  have others: "filter (\<lambda>m. desc m \<noteq> cpuGuest) (concat (map (emitCPUStat enableCPUGuest) ?cache)) =
      concat (map (emitCPUStat False) ?cache)"
    by (simp add: filter_concat comp_def filter_not_guest_emitCPUStat)
  have plain: "emitCPUStat False = (\<lambda>(cpuID, cpuStat).
        [MustNewConstMetric cpu CounterValue (User cpuStat) [Itoa cpuID, ''user''],
         MustNewConstMetric cpu CounterValue (Nice cpuStat) [Itoa cpuID, ''nice''],
         MustNewConstMetric cpu CounterValue (System cpuStat) [Itoa cpuID, ''system''],
         MustNewConstMetric cpu CounterValue (Idle cpuStat) [Itoa cpuID, ''idle''],
         MustNewConstMetric cpu CounterValue (Iowait cpuStat) [Itoa cpuID, ''iowait''],
         MustNewConstMetric cpu CounterValue (IRQ cpuStat) [Itoa cpuID, ''irq''],
         MustNewConstMetric cpu CounterValue (SoftIRQ cpuStat) [Itoa cpuID, ''softirq''],
         MustNewConstMetric cpu CounterValue (Steal cpuStat) [Itoa cpuID, ''steal'']])"
    by (rule ext) (simp add: emitCPUStat_def Let_def split: prod.splits)
  have state: "fst (cpuCollector_Update enableCPUGuest c ns) = updateCPUStats c ns"
    by (simp add: cpuCollector_Update_def Let_def)
  show ?thesis
    using guest others state
    by (simp only: emitted_cpuCollector_Update plain)
qed

text \<open>
  C8. When the read of the data source fails, \<open>Update\<close> of the buddyinfo, bcache (with
  either setting of \<open>priorityStats\<close>) and cpufreq collectors sends no sample and returns
  an error; the buddyinfo and bcache collectors return an error only then.
\<close>

theorem failed_read_emits_nothing:
  "buddyinfoCollector_Update (Inl err) = ([], Some (Errorf ''couldn't get buddyinfo: %w'' err)) \<and>
   bcacheCollector_Update True (Inl err) other updateBcacheStats =
     ([], Some (Errorf ''failed to retrieve bcache stats: %w'' err)) \<and>
   bcacheCollector_Update False other (Inl err) updateBcacheStats =
     ([], Some (Errorf ''failed to retrieve bcache stats: %w'' err)) \<and>
   cpuFreqCollector_Update maxArgs rest ret (Inl err) = ([], Some err) \<and>
   (snd (buddyinfoCollector_Update readBuddyInfo) = None) = (\<exists>buddyInfo. readBuddyInfo = Inr buddyInfo) \<and>
   (snd (bcacheCollector_Update priorityStats readStats readStatsWithoutPriority updateBcacheStats) = None)
     = (\<exists>stats. (if priorityStats then readStats else readStatsWithoutPriority) = Inr stats)"
  by (simp add: buddyinfoCollector_Update_def bcacheCollector_Update_def cpuFreqCollector_Update_def
      split: sum.splits)

text \<open>
  C9. When the kernel pseudo-filesystem root cannot be opened, each of
  \<open>NewCPUCollector\<close>, \<open>NewBuddyinfoCollector\<close> and \<open>NewBcacheCollector\<close> returns the
  wrapped error and no collector, whatever the rest of the construction would do.
\<close>

theorem factories_fail_fast:
  "NewCPUCollector (Inl err) rest = Inl (Errorf ''failed to open procfs: %w'' err) \<and>
   NewBuddyinfoCollector (Inl err) = Inl (Errorf ''failed to open procfs: %w'' err) \<and>
   NewBcacheCollector (Inl err) = Inl (Errorf ''failed to open sysfs: %w'' err)"
  by (simp add: NewCPUCollector_def NewBuddyinfoCollector_def NewBcacheCollector_def)

section \<open>The cpufreq blocks shown in the source\<close>

text \<open>
  What the two complete blocks send for one record: a sample of descriptor \<open>cpuFreq\<close>
  exactly when \<open>CpuinfoCurrentFrequency\<close> is present and one of descriptor
  \<open>cpuFreqMin\<close> exactly when \<open>CpuinfoMinimumFrequency\<close> is present, each with the value
  \<^verbatim>\<open>float64(*p)*1000.0\<close>.
\<close>

lemma emitCpuinfoFrequencies_shown_blocks:
  "filter (\<lambda>m. desc m = cpuFreq) (emitCpuinfoFrequencies stats) =
     (case CpuinfoCurrentFrequency stats of
        None \<Rightarrow> []
      | Some khz \<Rightarrow> [MustNewConstMetric cpuFreq GaugeValue
                     (float64_mul (float64_of_uint64 khz) 1000) [Name stats]])"
  "filter (\<lambda>m. desc m = cpuFreqMin) (emitCpuinfoFrequencies stats) =
     (case CpuinfoMinimumFrequency stats of
        None \<Rightarrow> []
      | Some khz \<Rightarrow> [MustNewConstMetric cpuFreqMin GaugeValue
                     (float64_mul (float64_of_uint64 khz) 1000) [Name stats]])"
  by (simp_all add: emitCpuinfoFrequencies_def split: option.splits)

end
